theory Spec2Isabelle
  imports Complex_Main "HOL-Library.Sublist"
begin

section \<open>Python values\<close>

text \<open>
  The log entries of cozempic are parsed JSON: every value the code reads is a Python
  \<^verbatim>\<open>None\<close>, \<^verbatim>\<open>bool\<close>, \<^verbatim>\<open>int\<close>, \<^verbatim>\<open>float\<close>,
  \<^verbatim>\<open>str\<close>, \<^verbatim>\<open>list\<close> or \<^verbatim>\<open>dict\<close> with string keys. The code is
  dynamically typed and tests the shape of a value only in some places, so the model keeps the
  whole value and makes every \<^verbatim>\<open>AttributeError\<close> and \<^verbatim>\<open>TypeError\<close> of the
  source a result.

  Text is a HOL \<open>string\<close>, one \<open>char\<close> for one character; case folding is the ASCII one
  (what Python does on ASCII text). A float is its rational value (\<^verbatim>\<open>nan\<close> and the
  infinities, which are not JSON, are left out).
\<close>

datatype json =
    JNull
  | JBool bool
  | JInt int
  | JFloat rat
  | JStr string
  | JList "json list"
  | JDict "(string \<times> json) list"

type_synonym pydict = "(string \<times> json) list"

text \<open>One record of the log: \<^verbatim>\<open>Message = tuple[int, dict, int]\<close>, that is
  (line index, entry, byte size).\<close>

type_synonym Message = "int \<times> pydict \<times> nat"

definition line_idx :: "Message \<Rightarrow> int" where
  "line_idx m = fst m"

definition msg_dict :: "Message \<Rightarrow> pydict" where
  "msg_dict m = fst (snd m)"

datatype py_error = AttributeError | TypeError | Raised string

text \<open>\<^verbatim>\<open>bool(v)\<close>, as \<^verbatim>\<open>if v:\<close> and \<^verbatim>\<open>not v\<close> compute it.\<close>

fun truthy :: "json \<Rightarrow> bool" where
  "truthy JNull = False"
| "truthy (JBool b) = b"
| "truthy (JInt i) = (i \<noteq> 0)"
| "truthy (JFloat r) = (r \<noteq> 0)"
| "truthy (JStr s) = (s \<noteq> [])"
| "truthy (JList xs) = (xs \<noteq> [])"
| "truthy (JDict kvs) = (kvs \<noteq> [])"

text \<open>\<^verbatim>\<open>d.get(k, default)\<close> on a dict with string keys.\<close>

definition get :: "pydict \<Rightarrow> string \<Rightarrow> json \<Rightarrow> json" where
  "get d k dflt = (case map_of d k of Some v \<Rightarrow> v | None \<Rightarrow> dflt)"

text \<open>\<^verbatim>\<open>v.get\<close> exists only when \<open>v\<close> is a dict; on every other value the attribute
  lookup raises.\<close>

fun as_dict :: "json \<Rightarrow> py_error + pydict" where
  "as_dict (JDict d) = Inr d"
| "as_dict _ = Inl AttributeError"

text \<open>\<^verbatim>\<open>for x in v\<close>: a list gives its elements, a dict its keys, a string its
  characters; the other values are not iterable.\<close>

fun py_iter :: "json \<Rightarrow> py_error + json list" where
  "py_iter (JList xs) = Inr xs"
| "py_iter (JDict kvs) = Inr (map (\<lambda>kv. JStr (fst kv)) kvs)"
| "py_iter (JStr s) = Inr (map (\<lambda>c. JStr [c]) s)"
| "py_iter _ = Inl TypeError"

text \<open>Keys of the two registries (\<^verbatim>\<open>seen_teammates\<close>, \<^verbatim>\<open>seen_tasks\<close>) are
  arbitrary values: a list or a dict is unhashable, and \<^verbatim>\<open>True == 1 == 1.0\<close> are one
  key.\<close>

fun hashable :: "json \<Rightarrow> bool" where
  "hashable (JList xs) = False"
| "hashable (JDict kvs) = False"
| "hashable _ = True"

fun num_of :: "json \<Rightarrow> rat option" where
  "num_of (JBool b) = Some (if b then 1 else 0)"
| "num_of (JInt i) = Some (of_int i)"
| "num_of (JFloat r) = Some r"
| "num_of _ = None"

definition py_eq :: "json \<Rightarrow> json \<Rightarrow> bool" where
  "py_eq a b =
     (case num_of a of
        Some x \<Rightarrow> (case num_of b of Some y \<Rightarrow> x = y | None \<Rightarrow> False)
      | None \<Rightarrow> (case num_of b of Some y \<Rightarrow> False | None \<Rightarrow> a = b))"

text \<open>A Python dict keeps the insertion order of its keys; assigning to a key that is there
  replaces the value in place and keeps the key that was stored first.\<close>

fun dict_get :: "(json \<times> 'v) list \<Rightarrow> json \<Rightarrow> 'v option" where
  "dict_get [] k = None"
| "dict_get (kv # d) k = (if py_eq (fst kv) k then Some (snd kv) else dict_get d k)"

fun dict_set :: "(json \<times> 'v) list \<Rightarrow> json \<Rightarrow> 'v \<Rightarrow> (json \<times> 'v) list" where
  "dict_set [] k v = [(k, v)]"
| "dict_set (kv # d) k v =
     (if py_eq (fst kv) k then (fst kv, v) # d else kv # dict_set d k v)"

definition dict_values :: "(json \<times> 'v) list \<Rightarrow> 'v list" where
  "dict_values d = map snd d"

text \<open>A loop whose body may raise: the first error ends it.\<close>

fun foldM :: "('s \<Rightarrow> 'a \<Rightarrow> py_error + 's) \<Rightarrow> 's \<Rightarrow> 'a list \<Rightarrow> py_error + 's" where
  "foldM f s [] = Inr s"
| "foldM f s (x # xs) = (case f s x of Inl e \<Rightarrow> Inl e | Inr s' \<Rightarrow> foldM f s' xs)"

section \<open>The data model of team.py\<close>

record TeammateInfo =
  agent_id :: json
  tm_name :: json
  tm_role :: json
  tm_status :: json

record TaskInfo =
  task_id :: json
  subject :: json
  task_status :: json
  owner :: json
  description :: json

record TeamState =
  team_name :: json
  teammates :: "TeammateInfo list"
  tasks :: "TaskInfo list"
  lead_summary :: string
  message_count :: nat
  last_coordination_index :: int

definition is_empty :: "TeamState \<Rightarrow> bool" where
  "is_empty s = (\<not> truthy (team_name s) \<and> teammates s = [] \<and> tasks s = [])"

section \<open>The coordination classifier\<close>

definition TEAM_TOOL_NAMES :: "string list" where
  "TEAM_TOOL_NAMES =
     [''TeamCreate'', ''TeamDelete'', ''TeamMessage'', ''SendMessage'',
      ''TaskCreate'', ''TaskUpdate'', ''TaskList'', ''TaskGet'',
      ''SpawnTeammate'', ''TeamStatus'']"

text \<open>\<^verbatim>\<open>v in TEAM_TOOL_NAMES\<close>: membership in a set hashes \<open>v\<close> first.\<close>

definition in_tool_names :: "json \<Rightarrow> py_error + bool" where
  "in_tool_names v =
     (if \<not> hashable v then Inl TypeError
      else Inr (case v of JStr s \<Rightarrow> s \<in> set TEAM_TOOL_NAMES | _ \<Rightarrow> False))"

text \<open>
  \<^verbatim>\<open>TEAM_KEYWORDS\<close> is a regular expression searched with \<^verbatim>\<open>re.IGNORECASE\<close>. Its
  alternatives are words with at most one \<^verbatim>\<open>.?\<close> or \<^verbatim>\<open>.+\<close> between letters, where
  \<^verbatim>\<open>.\<close> is any character but a newline. The matcher folds the case of ASCII letters
  only: it agrees with the code on ASCII text, while on other characters Python folds case by the
  Unicode tables and can match where this matcher does not. The properties below are stated for
  whatever the classifier answers, and the sample logs are ASCII.
\<close>

datatype atom = Lit char | OptDot | PlusDot

definition lower_char :: "char \<Rightarrow> char" where
  "lower_char c =
     (case map_of (zip ''ABCDEFGHIJKLMNOPQRSTUVWXYZ'' ''abcdefghijklmnopqrstuvwxyz'') c of
        Some d \<Rightarrow> d | None \<Rightarrow> c)"

definition upper_char :: "char \<Rightarrow> char" where
  "upper_char c =
     (case map_of (zip ''abcdefghijklmnopqrstuvwxyz'' ''ABCDEFGHIJKLMNOPQRSTUVWXYZ'') c of
        Some d \<Rightarrow> d | None \<Rightarrow> c)"

definition newline :: char where
  "newline = CHR 0x0A"

fun match_here :: "atom list \<Rightarrow> string \<Rightarrow> bool" where
  "match_here [] s = True"
| "match_here (Lit c # p) [] = False"
| "match_here (Lit c # p) (x # s) = (lower_char x = lower_char c \<and> match_here p s)"
| "match_here (OptDot # p) [] = match_here p []"
| "match_here (OptDot # p) (x # s) =
     (match_here p (x # s) \<or> (x \<noteq> newline \<and> match_here p s))"
| "match_here (PlusDot # p) [] = False"
| "match_here (PlusDot # p) (x # s) =
     (x \<noteq> newline \<and> (match_here p s \<or> match_here (PlusDot # p) s))"

fun search_one :: "atom list \<Rightarrow> string \<Rightarrow> bool" where
  "search_one p [] = match_here p []"
| "search_one p (x # s) = (match_here p (x # s) \<or> search_one p s)"

definition word :: "string \<Rightarrow> atom list" where
  "word w = map Lit w"

definition TEAM_KEYWORDS :: "atom list list" where
  "TEAM_KEYWORDS =
     [word ''team'' @ [OptDot] @ word ''name'',
      word ''agent'' @ [OptDot] @ word ''id'',
      word ''teammate'',
      word ''team'' @ [OptDot] @ word ''lead'',
      word ''SendMessage'', word ''TeamCreate'', word ''TaskCreate'', word ''TaskUpdate'',
      word ''agent'' @ [OptDot] @ word ''team'',
      word ''spawn'' @ [PlusDot] @ word ''teammate'',
      word ''team'' @ [PlusDot] @ word ''config'']"

definition keywords_search :: "string \<Rightarrow> bool" where
  "keywords_search s = (\<exists>p \<in> set TEAM_KEYWORDS. search_one p s)"

text \<open>One block of a content list, as the loop body of \<^verbatim>\<open>_is_team_message\<close> reads
  it: the result says whether the function returns \<^verbatim>\<open>True\<close> at this block.\<close>

definition block_is_team :: "json \<Rightarrow> py_error + bool" where
  "block_is_team block =
     (case block of
        JDict b \<Rightarrow>
          (case (if get b ''type'' JNull = JStr ''tool_use''
                 then in_tool_names (get b ''name'' JNull) else Inr False) of
             Inl e \<Rightarrow> Inl e
           | Inr True \<Rightarrow> Inr True
           | Inr False \<Rightarrow>
               if get b ''type'' JNull = JStr ''tool_result'' \<and>
                  (case get b ''content'' (JStr '''') of
                     JStr rc \<Rightarrow> keywords_search rc | _ \<Rightarrow> False)
               then Inr True
               else Inr (case get b ''text'' (JStr '''') of
                           JStr t \<Rightarrow> keywords_search t | _ \<Rightarrow> False))
      | _ \<Rightarrow> Inr False)"

fun any_block_is_team :: "json list \<Rightarrow> py_error + bool" where
  "any_block_is_team [] = Inr False"
| "any_block_is_team (b # bs) =
     (case block_is_team b of
        Inl e \<Rightarrow> Inl e
      | Inr True \<Rightarrow> Inr True
      | Inr False \<Rightarrow> any_block_is_team bs)"

definition is_team_message :: "pydict \<Rightarrow> py_error + bool" where
  "is_team_message msg =
     (case as_dict (get msg ''message'' (JDict [])) of
        Inl e \<Rightarrow> Inl e
      | Inr inner \<Rightarrow>
          (case get inner ''content'' (JList []) of
             JList content \<Rightarrow> any_block_is_team content
           | JStr s \<Rightarrow> Inr (keywords_search s)
           | _ \<Rightarrow> Inr False))"

section \<open>The team-state extractor\<close>

text \<open>The state of the first loop of \<^verbatim>\<open>extract_team_state\<close>: the \<^verbatim>\<open>TeamState\<close>
  being filled and the two registries.\<close>

record scan =
  state :: TeamState
  seen_teammates :: "(json \<times> TeammateInfo) list"
  seen_tasks :: "(json \<times> TaskInfo) list"

definition TeamState0 :: TeamState where
  "TeamState0 =
     \<lparr>team_name = JStr '''', teammates = [], tasks = [], lead_summary = '''',
      message_count = 0, last_coordination_index = - 1\<rparr>"

definition scan0 :: scan where
  "scan0 = \<lparr>state = TeamState0, seen_teammates = [], seen_tasks = []\<rparr>"

text \<open>\<^verbatim>\<open>str(n)\<close> for a length.\<close>

fun str_of_nat :: "nat \<Rightarrow> string" where
  "str_of_nat n =
     (if n < 10 then [''0123456789'' ! n]
      else str_of_nat (n div 10) @ [''0123456789'' ! (n mod 10)])"

declare str_of_nat.simps [simp del]

text \<open>The body of \<^verbatim>\<open>for tm in inp.get("teammates", [])\<close>.\<close>

definition add_teammate ::
  "(json \<times> TeammateInfo) list \<Rightarrow> json \<Rightarrow> py_error + (json \<times> TeammateInfo) list" where
  "add_teammate seen tm =
     (case as_dict tm of
        Inl e \<Rightarrow> Inl e
      | Inr t \<Rightarrow>
          (let aid = get t ''agentId'' (get t ''agent_id'' (JStr ''''));
               nm = get t ''name'' aid;
               rl = get t ''role'' (get t ''description'' (JStr ''''))
           in if truthy aid then
                (if hashable aid then
                   Inr (dict_set seen aid
                          \<lparr>agent_id = aid, tm_name = nm, tm_role = rl,
                           tm_status = JStr ''running''\<rparr>)
                 else Inl TypeError)
              else Inr seen))"

definition team_create :: "scan \<Rightarrow> json \<Rightarrow> py_error + scan" where
  "team_create sc inp =
     (case as_dict inp of
        Inl e \<Rightarrow> Inl e
      | Inr i \<Rightarrow>
          (let sc1 = sc\<lparr>state := (state sc)\<lparr>team_name := get i ''name'' (team_name (state sc))\<rparr>\<rparr>
           in case py_iter (get i ''teammates'' (JList [])) of
                Inl e \<Rightarrow> Inl e
              | Inr tms \<Rightarrow>
                  (case foldM add_teammate (seen_teammates sc1) tms of
                     Inl e \<Rightarrow> Inl e
                   | Inr seen \<Rightarrow> Inr (sc1\<lparr>seen_teammates := seen\<rparr>))))"

definition task_create :: "scan \<Rightarrow> json \<Rightarrow> py_error + scan" where
  "task_create sc inp =
     (case as_dict inp of
        Inl e \<Rightarrow> Inl e
      | Inr i \<Rightarrow>
          (let tid = get i ''taskId'' (get i ''id'' (JStr (str_of_nat (length (seen_tasks sc)))));
               subj = get i ''subject'' (get i ''title'' (JStr ''''))
           in if hashable tid then
                Inr (sc\<lparr>seen_tasks :=
                       dict_set (seen_tasks sc) tid
                         \<lparr>task_id = tid, subject = subj, task_status = JStr ''pending'',
                          owner = get i ''owner'' (JStr ''''),
                          description = get i ''description'' (JStr '''')\<rparr>\<rparr>)
              else Inl TypeError))"

definition task_update :: "scan \<Rightarrow> json \<Rightarrow> py_error + scan" where
  "task_update sc inp =
     (case as_dict inp of
        Inl e \<Rightarrow> Inl e
      | Inr i \<Rightarrow>
          (let tid = get i ''taskId'' (get i ''id'' (JStr ''''))
           in if \<not> hashable tid then Inl TypeError
              else
                (case dict_get (seen_tasks sc) tid of
                   Some t \<Rightarrow>
                     (let t1 = (if truthy (get i ''status'' JNull)
                                then t\<lparr>task_status := get i ''status'' JNull\<rparr> else t);
                          t2 = (if truthy (get i ''owner'' JNull)
                                then t1\<lparr>owner := get i ''owner'' JNull\<rparr> else t1)
                      in Inr (sc\<lparr>seen_tasks := dict_set (seen_tasks sc) tid t2\<rparr>))
                 | None \<Rightarrow>
                     Inr (sc\<lparr>seen_tasks :=
                            dict_set (seen_tasks sc) tid
                              \<lparr>task_id = tid, subject = get i ''subject'' (JStr ''''),
                               task_status = get i ''status'' (JStr ''unknown''),
                               owner = get i ''owner'' (JStr ''''),
                               description = JStr ''''\<rparr>\<rparr>))))"

definition send_message :: "scan \<Rightarrow> json \<Rightarrow> py_error + scan" where
  "send_message sc inp =
     (case as_dict inp of
        Inl e \<Rightarrow> Inl e
      | Inr i \<Rightarrow>
          (let target = get i ''to'' (get i ''agentId'' (JStr ''''))
           in if \<not> truthy target then Inr sc
              else if \<not> hashable target then Inl TypeError
              else
                (case dict_get (seen_teammates sc) target of
                   Some t \<Rightarrow>
                     Inr (sc\<lparr>seen_teammates :=
                            dict_set (seen_teammates sc) target (t\<lparr>tm_status := JStr ''running''\<rparr>)\<rparr>)
                 | None \<Rightarrow> Inr sc)))"

text \<open>The body of \<^verbatim>\<open>for block in content\<close> in the first loop. \<open>inp\<close> is read only in
  the branch that is taken, so an input that is not a dict raises only under one of the five
  interpreted names.\<close>

definition process_block :: "scan \<Rightarrow> json \<Rightarrow> py_error + scan" where
  "process_block sc block =
     (case block of
        JDict b \<Rightarrow>
          if get b ''type'' JNull \<noteq> JStr ''tool_use'' then Inr sc
          else
            (let name = get b ''name'' (JStr '''');
                 inp = get b ''input'' (JDict [])
             in if name = JStr ''TeamCreate'' then team_create sc inp
                else if name = JStr ''TaskCreate'' then task_create sc inp
                else if name = JStr ''TaskUpdate'' then task_update sc inp
                else if name = JStr ''SendMessage'' \<or> name = JStr ''TeamMessage''
                then send_message sc inp
                else Inr sc)
      | _ \<Rightarrow> Inr sc)"

definition process_message :: "scan \<Rightarrow> Message \<Rightarrow> py_error + scan" where
  "process_message sc m =
     (case is_team_message (msg_dict m) of
        Inl e \<Rightarrow> Inl e
      | Inr False \<Rightarrow> Inr sc
      | Inr True \<Rightarrow>
          (let sc1 = sc\<lparr>state := (state sc)\<lparr>message_count := message_count (state sc) + 1,
                                             last_coordination_index := line_idx m\<rparr>\<rparr>
           in case as_dict (get (msg_dict m) ''message'' (JDict [])) of
                Inl e \<Rightarrow> Inl e
              | Inr inner \<Rightarrow>
                  (case get inner ''content'' (JList []) of
                     JList content \<Rightarrow> foldM process_block sc1 content
                   | _ \<Rightarrow> Inr sc1)))"

text \<open>The second loop collects \<^verbatim>\<open>team_msgs\<close>. Its inner loop calls
  \<^verbatim>\<open>block.get\<close> on every block, with no \<^verbatim>\<open>isinstance\<close> test before it.
  \<^verbatim>\<open>v[:300]\<close> is defined on a string and on a list; on a dict it raises as well
  (\<^verbatim>\<open>TypeError\<close> before Python 3.12, \<^verbatim>\<open>KeyError\<close> from then on).\<close>

fun slice300 :: "json \<Rightarrow> py_error + json" where
  "slice300 (JStr s) = Inr (JStr (take 300 s))"
| "slice300 (JList xs) = Inr (JList (take 300 xs))"
| "slice300 _ = Inl TypeError"

definition lead_block :: "json list \<Rightarrow> json \<Rightarrow> py_error + json list" where
  "lead_block team_msgs block =
     (case as_dict block of
        Inl e \<Rightarrow> Inl e
      | Inr b \<Rightarrow>
          if get b ''type'' JNull = JStr ''text'' then
            (case slice300 (get b ''text'' (JStr '''')) of
               Inl e \<Rightarrow> Inl e
             | Inr v \<Rightarrow> Inr (team_msgs @ [v]))
          else Inr team_msgs)"

definition lead_message :: "json list \<Rightarrow> Message \<Rightarrow> py_error + json list" where
  "lead_message team_msgs m =
     (if get (msg_dict m) ''type'' JNull = JStr ''assistant'' then
        (case is_team_message (msg_dict m) of
           Inl e \<Rightarrow> Inl e
         | Inr False \<Rightarrow> Inr team_msgs
         | Inr True \<Rightarrow>
             (case as_dict (get (msg_dict m) ''message'' (JDict [])) of
                Inl e \<Rightarrow> Inl e
              | Inr inner \<Rightarrow>
                  (case get inner ''content'' (JList []) of
                     JList content \<Rightarrow> foldM lead_block team_msgs content
                   | _ \<Rightarrow> Inr team_msgs)))
      else Inr team_msgs)"

text \<open>\<^verbatim>\<open>sep.join(xs)\<close> raises on an item that is not a string.\<close>

fun join :: "string \<Rightarrow> json list \<Rightarrow> py_error + string" where
  "join sep [] = Inr []"
| "join sep [JStr s] = Inr s"
| "join sep (JStr s # x # xs) =
     (case join sep (x # xs) of Inl e \<Rightarrow> Inl e | Inr r \<Rightarrow> Inr (s @ sep @ r))"
| "join sep (_ # xs) = Inl TypeError"

definition last3 :: "'a list \<Rightarrow> 'a list" where
  "last3 xs = drop (length xs - 3) xs"

definition extract_team_state :: "Message list \<Rightarrow> py_error + TeamState" where
  "extract_team_state messages =
     (case foldM process_message scan0 messages of
        Inl e \<Rightarrow> Inl e
      | Inr sc \<Rightarrow>
          (let st = (state sc)\<lparr>teammates := dict_values (seen_teammates sc),
                               tasks := dict_values (seen_tasks sc)\<rparr>
           in case foldM lead_message [] messages of
                Inl e \<Rightarrow> Inl e
              | Inr team_msgs \<Rightarrow>
                  if team_msgs = [] then Inr st
                  else (case join '' [...] '' (last3 team_msgs) of
                          Inl e \<Rightarrow> Inl e
                        | Inr summary \<Rightarrow> Inr (st\<lparr>lead_summary := summary\<rparr>))))"

section \<open>The recovery injector\<close>

text \<open>
  What \<^verbatim>\<open>inject_team_recovery\<close> takes from outside the program: the two results of
  \<^verbatim>\<open>uuid.uuid4()\<close>, the clock, \<^verbatim>\<open>str(v)\<close> on a value that is not a string (as an
  f-string formats it), and the length of the UTF-8 encoding of
  \<^verbatim>\<open>json.dumps(d, separators=(",", ":"))\<close>.
\<close>

record runtime =
  user_uuid :: string
  assistant_uuid :: string
  now :: string
  py_str :: "json \<Rightarrow> string"
  dumps_len :: "pydict \<Rightarrow> nat"

definition fmt :: "runtime \<Rightarrow> json \<Rightarrow> string" where
  "fmt rt v = (case v of JStr s \<Rightarrow> s | _ \<Rightarrow> py_str rt v)"

text \<open>The dash of the source's literals (U+2014), as its UTF-8 bytes.\<close>

definition em_dash :: string where
  "em_dash = [CHR 0xE2, CHR 0x80, CHR 0x94]"

definition teammate_line :: "runtime \<Rightarrow> TeammateInfo \<Rightarrow> string" where
  "teammate_line rt t =
     (let role = (if truthy (tm_role t) then '' '' @ em_dash @ '' '' @ fmt rt (tm_role t) else '''')
      in ''  - '' @ fmt rt (tm_name t) @ '' (agent_id: '' @ fmt rt (agent_id t) @ '')'' @ role
         @ '' ['' @ fmt rt (tm_status t) @ '']'')"

text \<open>\<^verbatim>\<open>t.status.upper()\<close> is a method of strings only; \<open>upper_char\<close> is its effect
  on ASCII letters, and the rendered text is exact for ASCII statuses.\<close>

definition task_line :: "runtime \<Rightarrow> TaskInfo \<Rightarrow> py_error + string" where
  "task_line rt t =
     (let owner = (if truthy (owner t) then '' (owner: '' @ fmt rt (owner t) @ '')'' else '''')
      in case task_status t of
           JStr s \<Rightarrow> Inr (''  - ['' @ map upper_char s @ ''] '' @ fmt rt (subject t) @ owner)
         | _ \<Rightarrow> Inl AttributeError)"

fun task_lines :: "runtime \<Rightarrow> TaskInfo list \<Rightarrow> py_error + string list" where
  "task_lines rt [] = Inr []"
| "task_lines rt (t # ts) =
     (case task_line rt t of
        Inl e \<Rightarrow> Inl e
      | Inr l \<Rightarrow> (case task_lines rt ts of Inl e \<Rightarrow> Inl e | Inr ls \<Rightarrow> Inr (l # ls)))"

fun join_lines :: "string list \<Rightarrow> string" where
  "join_lines [] = []"
| "join_lines [l] = l"
| "join_lines (l # k # ls) = l @ [newline] @ join_lines (k # ls)"

definition to_recovery_text :: "runtime \<Rightarrow> TeamState \<Rightarrow> py_error + string" where
  "to_recovery_text rt s =
     (let head = [''Active agent team: '' @
                    (if truthy (team_name s) then fmt rt (team_name s) else ''unnamed'')];
          mates = (if teammates s \<noteq> []
                   then ([newline] @ ''Teammates:'') # map (teammate_line rt) (teammates s)
                   else []);
          lead = (if lead_summary s \<noteq> []
                  then [[newline] @ ''Coordination context: '' @ lead_summary s] else [])
      in case (if tasks s \<noteq> [] then task_lines rt (tasks s) else Inr []) of
           Inl e \<Rightarrow> Inl e
         | Inr ls \<Rightarrow>
             Inr (join_lines
                    (head @ mates
                     @ (if tasks s \<noteq> [] then ([newline] @ ''Shared task list:'') # ls else [])
                     @ lead)))"

definition has_uuid :: "Message \<Rightarrow> bool" where
  "has_uuid m = truthy (get (msg_dict m) ''uuid'' JNull)"

text \<open>\<^verbatim>\<open>max(idx for idx, _, _ in messages) + 1 if messages else 0\<close>\<close>

definition next_idx :: "Message list \<Rightarrow> int" where
  "next_idx messages =
     (case messages of
        [] \<Rightarrow> 0
      | m # ms \<Rightarrow> foldl max (line_idx m) (map line_idx ms) + 1)"

definition user_msg :: "runtime \<Rightarrow> pydict \<Rightarrow> string \<Rightarrow> pydict" where
  "user_msg rt last_msg recovery_text =
     [(''type'', JStr ''user''),
      (''uuid'', JStr (user_uuid rt)),
      (''parentUuid'', get last_msg ''uuid'' JNull),
      (''sessionId'', get last_msg ''sessionId'' JNull),
      (''timestamp'', JStr (now rt)),
      (''cwd'', get last_msg ''cwd'' JNull),
      (''gitBranch'', get last_msg ''gitBranch'' JNull),
      (''isSidechain'', JBool False),
      (''userType'', JStr ''external''),
      (''message'', JDict
         [(''role'', JStr ''user''),
          (''content'', JStr
             (''[Cozempic Guard: Context was pruned to prevent compaction. '' @
              ''Confirm the current agent team state below.]'' @ [newline, newline] @
              recovery_text))])]"

definition assistant_msg :: "runtime \<Rightarrow> pydict \<Rightarrow> string \<Rightarrow> pydict" where
  "assistant_msg rt last_msg recovery_text =
     [(''type'', JStr ''assistant''),
      (''uuid'', JStr (assistant_uuid rt)),
      (''parentUuid'', JStr (user_uuid rt)),
      (''sessionId'', get last_msg ''sessionId'' JNull),
      (''timestamp'', JStr (now rt)),
      (''cwd'', get last_msg ''cwd'' JNull),
      (''gitBranch'', get last_msg ''gitBranch'' JNull),
      (''isSidechain'', JBool False),
      (''userType'', JStr ''external''),
      (''message'', JDict
         [(''role'', JStr ''assistant''),
          (''content'', JList
             [JDict
                [(''type'', JStr ''text''),
                 (''text'', JStr
                    (''Confirmed '' @ em_dash @ '' I have an active agent team. '' @
                     recovery_text @ [newline, newline] @
                     ''A team state checkpoint was also written to .claude/team-checkpoint.md.'' @
                     [newline, newline] @
                     ''Continuing with team coordination.''))]])])]"

definition inject_team_recovery ::
  "runtime \<Rightarrow> Message list \<Rightarrow> TeamState \<Rightarrow> py_error + Message list" where
  "inject_team_recovery rt messages st =
     (if is_empty st then Inr messages
      else
        (case find has_uuid (rev messages) of
           None \<Rightarrow> Inr messages
         | Some m \<Rightarrow>
             (case to_recovery_text rt st of
                Inl e \<Rightarrow> Inl e
              | Inr recovery_text \<Rightarrow>
                  (let u = user_msg rt (msg_dict m) recovery_text;
                       a = assistant_msg rt (msg_dict m) recovery_text;
                       n = next_idx messages
                   in Inr (messages @ [(n, u, dumps_len rt u), (n + 1, a, dumps_len rt a)])))))"

section \<open>Team-aware pruning\<close>

text \<open>The loop that separates team and non-team messages; the pair is
  (\<^verbatim>\<open>team_messages\<close>, \<^verbatim>\<open>non_team_messages\<close>).\<close>

fun separate :: "Message list \<Rightarrow> py_error + (Message list \<times> Message list)" where
  "separate [] = Inr ([], [])"
| "separate (m # ms) =
     (case is_team_message (msg_dict m) of
        Inl e \<Rightarrow> Inl e
      | Inr b \<Rightarrow>
          (case separate ms of
             Inl e \<Rightarrow> Inl e
           | Inr (team, non_team) \<Rightarrow>
               if b then Inr (m # team, non_team) else Inr (team, m # non_team)))"

text \<open>
  \<^verbatim>\<open>run_prescription\<close> lives in \<^verbatim>\<open>executor.py\<close>, outside the files at hand, and
  is the external reducer: the model takes it as the parameter \<open>rx\<close>, already applied to the
  strategy names and the configuration. It returns the kept messages and a report, or raises.
\<close>

definition prune_with_team_protect ::
  "runtime \<Rightarrow> (Message list \<Rightarrow> py_error + (Message list \<times> 'r)) \<Rightarrow> Message list
     \<Rightarrow> py_error + (Message list \<times> 'r \<times> TeamState)" where
  "prune_with_team_protect rt rx messages =
     (case extract_team_state messages of
        Inl e \<Rightarrow> Inl e
      | Inr team_state \<Rightarrow>
          if is_empty team_state then
            (case rx messages of
               Inl e \<Rightarrow> Inl e
             | Inr (new_messages, results) \<Rightarrow> Inr (new_messages, results, team_state))
          else
            (case separate messages of
               Inl e \<Rightarrow> Inl e
             | Inr (team_messages, non_team_messages) \<Rightarrow>
                 (case rx non_team_messages of
                    Inl e \<Rightarrow> Inl e
                  | Inr (pruned_non_team, results) \<Rightarrow>
                      (case inject_team_recovery rt
                              (sort_key line_idx (pruned_non_team @ team_messages)) team_state of
                         Inl e \<Rightarrow> Inl e
                       | Inr all_messages \<Rightarrow> Inr (all_messages, results, team_state)))))"

section \<open>The list object of the injector\<close>

text \<open>
  \<^verbatim>\<open>inject_team_recovery\<close> returns its argument itself on both early returns, and on
  the third path rebinds \<^verbatim>\<open>messages = list(messages)\<close> before the two
  \<^verbatim>\<open>append\<close> calls. To say which list object is written, lists live in a heap of
  cells; a reference is the index of a cell, and \<^verbatim>\<open>list(xs)\<close> allocates a new one.
\<close>

type_synonym ref = nat
type_synonym heap = "Message list list"

definition list_copy :: "heap \<Rightarrow> ref \<Rightarrow> heap \<times> ref" where
  "list_copy h r = (h @ [h ! r], length h)"

definition list_append :: "heap \<Rightarrow> ref \<Rightarrow> Message \<Rightarrow> heap" where
  "list_append h r m = h[r := h ! r @ [m]]"

definition inject_team_recovery_heap ::
  "runtime \<Rightarrow> heap \<Rightarrow> ref \<Rightarrow> TeamState \<Rightarrow> py_error + (heap \<times> ref)" where
  "inject_team_recovery_heap rt h messages st =
     (if is_empty st then Inr (h, messages)
      else
        (case find has_uuid (rev (h ! messages)) of
           None \<Rightarrow> Inr (h, messages)
         | Some m \<Rightarrow>
             (case to_recovery_text rt st of
                Inl e \<Rightarrow> Inl e
              | Inr recovery_text \<Rightarrow>
                  (let u = user_msg rt (msg_dict m) recovery_text;
                       a = assistant_msg rt (msg_dict m) recovery_text;
                       n = next_idx (h ! messages);
                       (h1, messages1) = list_copy h messages;
                       h2 = list_append h1 messages1 (n, u, dumps_len rt u);
                       h3 = list_append h2 messages1 (n + 1, a, dumps_len rt a)
                   in Inr (h3, messages1)))))"

section \<open>Notions the properties are stated with\<close>

definition is_str :: "json \<Rightarrow> bool" where
  "is_str v = (case v of JStr s \<Rightarrow> True | _ \<Rightarrow> False)"

text \<open>The declared type of \<^verbatim>\<open>TaskInfo.status\<close> is \<^verbatim>\<open>str\<close>; the extractor stores
  whatever the log holds.\<close>

definition str_statuses :: "TeamState \<Rightarrow> bool" where
  "str_statuses s = list_all (\<lambda>t. is_str (task_status t)) (tasks s)"







text \<open>\<open>precedes xs a b\<close>: some occurrence of \<open>a\<close> in \<open>xs\<close> is followed by an occurrence of
  \<open>b\<close>.\<close>

fun precedes :: "'a list \<Rightarrow> 'a \<Rightarrow> 'a \<Rightarrow> bool" where
  "precedes [] a b = False"
| "precedes (x # xs) a b = ((x = a \<and> b \<in> set xs) \<or> precedes xs a b)"

text \<open>The contract of the reducer, as the orchestrator's description has it: the output is a
  subsequence of the input, each entry at a position at most its original one, and the positions
  of the output are monotonic.\<close>

fun reduces_to :: "Message list \<Rightarrow> Message list \<Rightarrow> bool" where
  "reduces_to [] ms = True"
| "reduces_to (x # xs) [] = False"
| "reduces_to (x # xs) (m # ms) =
     ((snd x = snd m \<and> line_idx x \<le> line_idx m \<and> reduces_to xs ms) \<or> reduces_to (x # xs) ms)"

definition reducer_contract ::
  "(Message list \<Rightarrow> py_error + (Message list \<times> 'r)) \<Rightarrow> bool" where
  "reducer_contract rx =
     (\<forall>ms out r. rx ms = Inr (out, r) \<longrightarrow> reduces_to out ms \<and> sorted (map line_idx out))"














text \<open>What the order of the pruned log needs of the reducer: the positions of its output on the
  log at hand are monotonic.\<close>

definition monotonic_output ::
  "(Message list \<Rightarrow> py_error + (Message list \<times> 'r)) \<Rightarrow> Message list \<Rightarrow> bool" where
  "monotonic_output rx ms =
     (case rx ms of Inr (out, r) \<Rightarrow> sorted (map line_idx out) | Inl e \<Rightarrow> True)"

section \<open>Sample logs\<close>

definition tool_use :: "string \<Rightarrow> pydict \<Rightarrow> json" where
  "tool_use n inp =
     JDict [(''type'', JStr ''tool_use''), (''name'', JStr n), (''input'', JDict inp)]"

definition text_block :: "string \<Rightarrow> json" where
  "text_block t = JDict [(''type'', JStr ''text''), (''text'', JStr t)]"

definition log_entry :: "int \<Rightarrow> string \<Rightarrow> string \<Rightarrow> json list \<Rightarrow> Message" where
  "log_entry i u role content =
     (i, [(''type'', JStr role), (''uuid'', JStr u), (''sessionId'', JStr ''s1''),
          (''cwd'', JStr ''/w''), (''gitBranch'', JStr ''main''),
          (''message'', JDict [(''role'', JStr role), (''content'', JList content)])], 100)"

definition py_str0 :: "json \<Rightarrow> string" where
  "py_str0 v = ''?''"

definition dumps_len0 :: "pydict \<Rightarrow> nat" where
  "dumps_len0 d = 0"

definition rt0 :: runtime where
  "rt0 = \<lparr>user_uuid = ''uu'', assistant_uuid = ''au'', now = ''t0'',
          py_str = py_str0, dumps_len = dumps_len0\<rparr>"

text \<open>Three reducers: one drops everything, one keeps everything, and one keeps the last entry
  handed to it and renumbers it to the lowest position it was given.\<close>

definition drop_all :: "Message list \<Rightarrow> py_error + (Message list \<times> unit)" where
  "drop_all ms = Inr ([], ())"

definition keep_all :: "Message list \<Rightarrow> py_error + (Message list \<times> unit)" where
  "keep_all ms = Inr (ms, ())"

definition keep_last_renumbered :: "Message list \<Rightarrow> py_error + (Message list \<times> unit)" where
  "keep_last_renumbered ms =
     Inr (case rev ms of
            [] \<Rightarrow> []
          | m # _ \<Rightarrow> [(foldl min (line_idx m) (map line_idx ms), snd m)], ())"

definition chat :: "int \<Rightarrow> string \<Rightarrow> Message" where
  "chat i u = log_entry i u ''user'' [text_block ''hello'']"

definition alpha_create :: "int \<Rightarrow> string \<Rightarrow> Message" where
  "alpha_create i u =
     log_entry i u ''assistant''
       [tool_use ''TeamCreate''
          [(''name'', JStr ''alpha''),
           (''teammates'', JList [JDict [(''agentId'', JStr ''a1''), (''name'', JStr ''Ann'')]])]]"

definition alpha_state :: TeamState where
  "alpha_state =
     \<lparr>team_name = JStr ''alpha'',
      teammates = [\<lparr>agent_id = JStr ''a1'', tm_name = JStr ''Ann'', tm_role = JStr '''',
                    tm_status = JStr ''running''\<rparr>],
      tasks = [], lead_summary = '''', message_count = 1, last_coordination_index = 1\<rparr>"

definition no_uuid_entry :: Message where
  "no_uuid_entry = (0, [(''type'', JStr ''user''), (''message'', JDict [(''content'', JStr ''hello'')])], 40)"

definition tasklist_entry :: Message where
  "tasklist_entry = log_entry 0 ''u0'' ''assistant'' [tool_use ''TaskList'' []]"

definition alpha_recovery :: string where
  "alpha_recovery = (case to_recovery_text rt0 alpha_state of Inr t \<Rightarrow> t | Inl e \<Rightarrow> '''')"

definition injected :: "int \<Rightarrow> Message \<Rightarrow> Message list" where
  "injected n l =
     [(n, user_msg rt0 (msg_dict l) alpha_recovery, 0),
      (n + 1, assistant_msg rt0 (msg_dict l) alpha_recovery, 0)]"

text \<open>Two task updates whose status is not a string, and the states the extractor returns on
  them.\<close>

definition null_status_update :: Message where
  "null_status_update =
     log_entry 0 ''u0'' ''assistant''
       [tool_use ''TaskUpdate'' [(''taskId'', JStr ''T1''), (''status'', JNull)]]"

definition null_status_state :: TeamState where
  "null_status_state =
     \<lparr>team_name = JStr '''', teammates = [],
      tasks = [\<lparr>task_id = JStr ''T1'', subject = JStr '''', task_status = JNull,
                 owner = JStr '''', description = JStr ''''\<rparr>],
      lead_summary = '''', message_count = 1, last_coordination_index = 0\<rparr>"










section \<open>Loops\<close>



section \<open>Registries\<close>

lemma py_eq_refl [simp]: "py_eq a a"
  by (simp add: py_eq_def split: option.splits)

lemma py_eq_sym: "py_eq a b \<Longrightarrow> py_eq b a"
  by (auto simp: py_eq_def split: option.splits)

lemma py_eq_trans: "py_eq a b \<Longrightarrow> py_eq b c \<Longrightarrow> py_eq a c"
  by (auto simp: py_eq_def split: option.splits)


lemma py_eq_right: "py_eq a b \<Longrightarrow> py_eq c a = py_eq c b"
  using py_eq_sym py_eq_trans by blast














section \<open>Logs without coordination entries\<close>






section \<open>The injector\<close>

lemma next_idx_Max:
  "ms \<noteq> [] \<Longrightarrow> next_idx ms = Max (line_idx ` set ms) + 1"
proof (cases ms)
  case Nil then show "ms \<noteq> [] \<Longrightarrow> ?thesis" by simp
next
  case (Cons m rest)
  have "foldl max (line_idx m) (map line_idx rest) = fold max (map line_idx rest) (line_idx m)"
    by (simp add: foldl_conv_fold max.commute)
  also have "\<dots> = Max (set (line_idx m # map line_idx rest))"
    by (rule Max.set_eq_fold[symmetric])
  finally show ?thesis using Cons by (simp add: next_idx_def)
qed

lemma find_rev_last:
  "find P (rev xs) = (if filter P xs = [] then None else Some (last (filter P xs)))"
  by (induction xs rule: rev_induct) auto


lemma task_lines_total:
  "list_all (\<lambda>t. is_str (task_status t)) ts \<Longrightarrow> \<exists>ls. task_lines rt ts = Inr ls"
  by (induction ts) (auto simp: task_line_def is_str_def Let_def split: json.splits)

lemma to_recovery_text_total:
  "str_statuses st \<Longrightarrow> \<exists>rtext. to_recovery_text rt st = Inr rtext"
  using task_lines_total[of "tasks st" rt]
  by (auto simp: to_recovery_text_def str_statuses_def Let_def)

lemma inject_proceeds:
  assumes "\<not> is_empty st" and "\<exists>m\<in>set ms. has_uuid m" and "to_recovery_text rt st = Inr rtext"
  shows "inject_team_recovery rt ms st =
           Inr (ms @ [(next_idx ms, user_msg rt (msg_dict (last (filter has_uuid ms))) rtext,
                       dumps_len rt (user_msg rt (msg_dict (last (filter has_uuid ms))) rtext)),
                      (next_idx ms + 1, assistant_msg rt (msg_dict (last (filter has_uuid ms))) rtext,
                       dumps_len rt (assistant_msg rt (msg_dict (last (filter has_uuid ms))) rtext))])"
proof -
  have "filter has_uuid ms \<noteq> []" using assms(2) by (auto simp: filter_empty_conv)
  then have "find has_uuid (rev ms) = Some (last (filter has_uuid ms))"
    by (simp add: find_rev_last)
  then show ?thesis using assms(1,3) by (simp add: inject_team_recovery_def Let_def)
qed

lemma inject_heap_pure:
  assumes "r < length h" and "inject_team_recovery_heap rt h r st = Inr (h', r')"
  shows "inject_team_recovery rt (h ! r) st = Inr (h' ! r') \<and> (\<forall>q<length h. h' ! q = h ! q)
         \<and> (r' = r \<or> r' = length h)"
  using assms
  by (auto simp: inject_team_recovery_heap_def inject_team_recovery_def Let_def list_copy_def
      list_append_def nth_append split: if_splits option.splits sum.splits)

lemma inject_heap_total:
  assumes "inject_team_recovery rt (h ! r) st = Inr out"
  shows "\<exists>h' r'. inject_team_recovery_heap rt h r st = Inr (h', r')"
  using assms
  by (auto simp: inject_team_recovery_heap_def inject_team_recovery_def Let_def list_copy_def
      split: if_splits option.splits sum.splits)

lemma task_lines_raises:
  "\<not> list_all (\<lambda>t. is_str (task_status t)) ts \<Longrightarrow> task_lines rt ts = Inl AttributeError"
proof (induction ts)
  case Nil
  then show ?case by simp
next
  case (Cons t ts)
  show ?case
  proof (cases "is_str (task_status t)")
    case True
    then obtain l where "task_line rt t = Inr l"
      by (auto simp: task_line_def is_str_def Let_def split: json.splits)
    moreover have "task_lines rt ts = Inl AttributeError" using Cons True by simp
    ultimately show ?thesis by simp
  next
    case False
    then have "task_line rt t = Inl AttributeError"
      by (auto simp: task_line_def is_str_def Let_def split: json.splits)
    then show ?thesis by simp
  qed
qed

lemma to_recovery_text_raises:
  assumes "\<not> str_statuses st"
  shows "to_recovery_text rt st = Inl AttributeError"
proof -
  have ne: "tasks st \<noteq> []" using assms by (auto simp: str_statuses_def)
  have "task_lines rt (tasks st) = Inl AttributeError"
    using assms task_lines_raises by (simp add: str_statuses_def)
  then show ?thesis using ne by (simp add: to_recovery_text_def Let_def)
qed

lemma inject_raises:
  assumes "\<not> is_empty st" and "\<exists>m\<in>set ms. has_uuid m" and "\<not> str_statuses st"
  shows "inject_team_recovery rt ms st = Inl AttributeError"
proof -
  have "filter has_uuid ms \<noteq> []" using assms(2) by (auto simp: filter_empty_conv)
  then have "find has_uuid (rev ms) = Some (last (filter has_uuid ms))"
    by (simp add: find_rev_last)
  then show ?thesis
    using assms(1) to_recovery_text_raises[OF assms(3)]
    by (simp add: inject_team_recovery_def)
qed


text \<open>
  Claim C7. With a non-empty team state and a log in which no entry has a truthy
  \<^verbatim>\<open>uuid\<close>, the injector returns the log it was given and raises nothing.
\<close>

theorem C7_no_uuid:
  assumes "\<not> is_empty st" and "\<forall>m\<in>set ms. \<not> has_uuid m"
  shows "inject_team_recovery rt ms st = Inr ms"
proof -
  have "find has_uuid (rev ms) = None"
    using assms(2) by (simp add: find_None_iff)
  then show ?thesis by (simp add: inject_team_recovery_def)
qed

theorem C7_no_uuid_witness:
  "\<not> is_empty alpha_state \<and> \<not> has_uuid no_uuid_entry \<and>
   inject_team_recovery rt0 [no_uuid_entry] alpha_state = Inr [no_uuid_entry]"
proof -
  have a: "\<not> is_empty alpha_state" by (simp add: is_empty_def alpha_state_def)
  have b: "\<forall>m\<in>set [no_uuid_entry]. \<not> has_uuid m"
    by (simp add: has_uuid_def no_uuid_entry_def msg_dict_def get_def)
  from C7_no_uuid[OF a b] a b show ?thesis by simp
qed

text \<open>
  Claim C9, as stated, fails: a non-empty log, a non-empty state and an entry with a
  \<^verbatim>\<open>uuid\<close> do not make the injector return. The extractor stores the status of a task
  as the log has it; on the state it returns for a task update whose status is
  \<^verbatim>\<open>null\<close>, rendering calls \<^verbatim>\<open>status.upper()\<close> and the injector raises.
\<close>

theorem C9_counterexample:
  "extract_team_state [null_status_update] = Inr null_status_state \<and>
   [null_status_update] \<noteq> [] \<and> \<not> is_empty null_status_state \<and>
   has_uuid null_status_update \<and>
   inject_team_recovery rt0 [null_status_update] null_status_state = Inl AttributeError \<and>
   inject_team_recovery_heap rt0 [[null_status_update]] 0 null_status_state = Inl AttributeError"
proof -
  have "extract_team_state [null_status_update] = Inr null_status_state" by code_simp
  moreover have "\<not> is_empty null_status_state" by code_simp
  moreover have "has_uuid null_status_update" by code_simp
  moreover have "inject_team_recovery rt0 [null_status_update] null_status_state =
      Inl AttributeError"
    by code_simp
  moreover have "inject_team_recovery_heap rt0 [[null_status_update]] 0 null_status_state =
      Inl AttributeError"
    by code_simp
  ultimately show ?thesis by simp
qed

text \<open>
  Claim C9, amended. When the log is not empty, the state is not empty, some entry has a
  \<^verbatim>\<open>uuid\<close> and every task status of the state is a string, the injector returns a new
  list object that holds the input entries, unchanged and in order, followed by exactly two
  entries at positions max + 1 and max + 2. Every list object that existed before the call, the
  input among them, holds what it held.
\<close>

theorem C9_inject_appends:
  assumes "r < length h" and "h ! r \<noteq> []" and "\<not> is_empty st"
      and "\<exists>m\<in>set (h ! r). has_uuid m" and "str_statuses st"
  shows "\<exists>h' r' u a su sa.
           inject_team_recovery_heap rt h r st = Inr (h', r') \<and>
           h' ! r' = h ! r @ [(Max (line_idx ` set (h ! r)) + 1, u, su),
                              (Max (line_idx ` set (h ! r)) + 2, a, sa)] \<and>
           (\<forall>q<length h. h' ! q = h ! q) \<and>
           inject_team_recovery rt (h ! r) st = Inr (h' ! r')"
proof -
  obtain rtext where rtext: "to_recovery_text rt st = Inr rtext"
    using to_recovery_text_total[OF assms(5)] by blast
  let ?u = "user_msg rt (msg_dict (last (filter has_uuid (h ! r)))) rtext"
  let ?a = "assistant_msg rt (msg_dict (last (filter has_uuid (h ! r)))) rtext"
  note direct = inject_proceeds[OF assms(3,4) rtext]
  obtain h' r' where heap: "inject_team_recovery_heap rt h r st = Inr (h', r')"
    using inject_heap_total[OF direct] by blast
  have same: "inject_team_recovery rt (h ! r) st = Inr (h' ! r')"
    and frame: "\<forall>q<length h. h' ! q = h ! q"
    using inject_heap_pure[OF assms(1) heap] by auto
  have "Inr (h' ! r') =
          (Inr (h ! r @ [(next_idx (h ! r), ?u, dumps_len rt ?u),
                         (next_idx (h ! r) + 1, ?a, dumps_len rt ?a)]) :: py_error + Message list)"
    using same direct by simp
  then have "h' ! r' = h ! r @ [(next_idx (h ! r), ?u, dumps_len rt ?u),
                                (next_idx (h ! r) + 1, ?a, dumps_len rt ?a)]"
    by (rule Inr_inject)
  then have eq: "h' ! r' = h ! r @ [(Max (line_idx ` set (h ! r)) + 1, ?u, dumps_len rt ?u),
                              (Max (line_idx ` set (h ! r)) + 2, ?a, dumps_len rt ?a)]"
    unfolding next_idx_Max[OF assms(2)] by simp
  show ?thesis
    using heap eq frame same by blast
qed

theorem C9_inject_appends_witness:
  "0 < length [[chat 0 ''u0'', alpha_create 1 ''u1'']] \<and>
   [[chat 0 ''u0'', alpha_create 1 ''u1'']] ! 0 \<noteq> [] \<and> \<not> is_empty alpha_state \<and>
   (\<exists>m\<in>set ([[chat 0 ''u0'', alpha_create 1 ''u1'']] ! 0). has_uuid m) \<and> str_statuses alpha_state \<and>
   (\<exists>h' r' u a su sa.
      inject_team_recovery_heap rt0 [[chat 0 ''u0'', alpha_create 1 ''u1'']] 0 alpha_state = Inr (h', r') \<and>
      h' ! r' = [chat 0 ''u0'', alpha_create 1 ''u1'', (2, u, su), (3, a, sa)] \<and>
      h' ! 0 = [chat 0 ''u0'', alpha_create 1 ''u1''])"
proof -
  let ?h = "[[chat 0 ''u0'', alpha_create 1 ''u1'']]"
  have a: "0 < length ?h" "?h ! 0 \<noteq> []" by simp_all
  have b: "\<not> is_empty alpha_state" by (simp add: is_empty_def alpha_state_def)
  have c: "\<exists>m\<in>set (?h ! 0). has_uuid m"
    by (simp add: has_uuid_def chat_def log_entry_def msg_dict_def get_def)
  have d: "str_statuses alpha_state" by (simp add: str_statuses_def alpha_state_def)
  have m: "Max (line_idx ` set (?h ! 0)) = 1"
    by (simp add: chat_def alpha_create_def log_entry_def line_idx_def)
  from C9_inject_appends[OF a b c d, of rt0] m a b c d show ?thesis
    by (auto simp: )
qed




section \<open>Protected entries\<close>

lemma separate_filter:
  "separate ms = Inr (team, non_team) \<Longrightarrow>
     team = filter (\<lambda>m. is_team_message (msg_dict m) = Inr True) ms \<and>
     non_team = filter (\<lambda>m. is_team_message (msg_dict m) = Inr False) ms"
  by (induction ms arbitrary: team non_team) (auto split: sum.splits if_splits)

lemma separate_total:
  "\<forall>m\<in>set ms. \<exists>b. is_team_message (msg_dict m) = Inr b \<Longrightarrow> \<exists>team non_team. separate ms = Inr (team, non_team)"
  by (induction ms) (auto split: sum.splits)

lemma scan_classifies:
  "foldM process_message sc ms = Inr sc' \<Longrightarrow> \<forall>m\<in>set ms. \<exists>b. is_team_message (msg_dict m) = Inr b"
  by (induction ms arbitrary: sc) (auto simp: process_message_def split: sum.splits)

lemma extract_classifies:
  "extract_team_state ms = Inr st \<Longrightarrow> \<forall>m\<in>set ms. \<exists>b. is_team_message (msg_dict m) = Inr b"
  unfolding extract_team_state_def using scan_classifies
  by (fastforce split: sum.splits)

lemma inject_keeps:
  "inject_team_recovery rt ms st = Inr out \<Longrightarrow> set ms \<subseteq> set out"
  by (auto simp: inject_team_recovery_def Let_def split: if_splits option.splits sum.splits)

lemma inject_total:
  "str_statuses st \<Longrightarrow> \<exists>out. inject_team_recovery rt ms st = Inr out"
  using to_recovery_text_total[of st rt]
  by (auto simp: inject_team_recovery_def Let_def split: option.splits)

lemma sorted_two_more:
  assumes "ms \<noteq> []" and "sorted (map line_idx ms)"
  shows "sorted (map line_idx (ms @ [(next_idx ms, u, su), (next_idx ms + 1, a, sa)]))"
proof -
  have "line_idx x \<le> next_idx ms" if "x \<in> set ms" for x
  proof -
    have "line_idx x \<le> Max (line_idx ` set ms)" using that by simp
    then show ?thesis unfolding next_idx_Max[OF assms(1)] by linarith
  qed
  then have "\<forall>x\<in>set ms. line_idx x \<le> next_idx ms" by blast
  then show ?thesis
    using assms(2) by (auto simp: sorted_append line_idx_def)
qed

lemma inject_sorted:
  assumes "inject_team_recovery rt ms st = Inr out" and "sorted (map line_idx ms)"
  shows "sorted (map line_idx out)"
proof (cases "ms = []")
  case True
  then show ?thesis using assms(1) by (auto simp: inject_team_recovery_def split: if_splits)
next
  case False
  show ?thesis
    using assms sorted_two_more[OF False assms(2)]
    by (auto simp: inject_team_recovery_def Let_def split: if_splits option.splits sum.splits)
qed

lemma foldl_min_le: "foldl min (a::int) xs \<le> a"
proof (induction xs arbitrary: a)
  case Nil
  then show ?case by simp
next
  case (Cons x xs)
  have "foldl min (min a x) xs \<le> min a x" by (rule Cons.IH)
  then show ?case by simp
qed

lemma reduces_to_single:
  "m \<in> set ms \<Longrightarrow> p \<le> line_idx m \<Longrightarrow> reduces_to [(p, snd m)] ms"
  by (induction ms) (auto simp: line_idx_def)

lemma drop_all_contract: "reducer_contract drop_all"
  by (simp add: reducer_contract_def drop_all_def)

lemma keep_last_contract: "reducer_contract keep_last_renumbered"
proof -
  have "reduces_to out ms \<and> sorted (map line_idx out)"
    if "keep_last_renumbered ms = Inr (out, r)" for ms out r
  proof (cases "rev ms")
    case Nil
    then show ?thesis using that by (simp add: keep_last_renumbered_def)
  next
    case (Cons m rest)
    then have m: "m \<in> set ms" by (metis list.set_intros(1) set_rev)
    have out: "out = [(foldl min (line_idx m) (map line_idx ms), snd m)]"
      using that Cons by (simp add: keep_last_renumbered_def)
    show ?thesis
      unfolding out using reduces_to_single[OF m foldl_min_le] by simp
  qed
  then show ?thesis unfolding reducer_contract_def by blast
qed

text \<open>
  Claim C1, as stated, fails: when the extracted state is empty the whole log goes to the reducer,
  and an entry the classifier accepts (here a \<^verbatim>\<open>TaskList\<close> call, which the extractor
  does not interpret) is dropped with the rest.
\<close>

theorem C1_counterexample:
  "reducer_contract drop_all \<and>
   is_team_message (msg_dict tasklist_entry) = Inr True \<and>
   prune_with_team_protect rt0 drop_all [tasklist_entry] =
     Inr ([], (), TeamState0\<lparr>message_count := 1, last_coordination_index := 0\<rparr>) \<and>
   is_empty (TeamState0\<lparr>message_count := 1, last_coordination_index := 0\<rparr>) \<and>
   tasklist_entry \<notin> set []"
proof -
  have "is_team_message (msg_dict tasklist_entry) = Inr True" by code_simp
  moreover have "prune_with_team_protect rt0 drop_all [tasklist_entry] =
     Inr ([], (), TeamState0\<lparr>message_count := 1, last_coordination_index := 0\<rparr>)"
    by code_simp
  moreover have "is_empty (TeamState0\<lparr>message_count := 1, last_coordination_index := 0\<rparr>)"
    by (simp add: is_empty_def TeamState0_def)
  ultimately show ?thesis using drop_all_contract by simp
qed

text \<open>
  Claim C1, amended. When the extracted state is not empty (and the reducer returns on the
  entries the classifier rejects, and the task statuses are strings, so that rendering does not
  raise), pruning returns, and every entry of the input that the classifier accepts is an entry
  of the output: same position, same content, same byte size. This holds for every reducer.
\<close>

theorem C1_protected_when_team:
  assumes "extract_team_state ms = Inr st" and "\<not> is_empty st"
      and "rx (filter (\<lambda>m. is_team_message (msg_dict m) = Inr False) ms) = Inr (red, res)"
      and "str_statuses st"
  shows "\<exists>out. prune_with_team_protect rt rx ms = Inr (out, res, st) \<and>
               (\<forall>m\<in>set ms. is_team_message (msg_dict m) = Inr True \<longrightarrow> m \<in> set out)"
proof -
  obtain team non_team where sep: "separate ms = Inr (team, non_team)"
    using separate_total[OF extract_classifies[OF assms(1)]] by blast
  note parts = separate_filter[OF sep]
  let ?merged = "sort_key line_idx (red @ team)"
  obtain out where out: "inject_team_recovery rt ?merged st = Inr out"
    using inject_total[OF assms(4)] by blast
  have run: "prune_with_team_protect rt rx ms = Inr (out, res, st)"
    using assms(1,2,3) sep parts out by (simp add: prune_with_team_protect_def)
  have "set team \<subseteq> set out"
    using inject_keeps[OF out] by auto
  then have "\<forall>m\<in>set ms. is_team_message (msg_dict m) = Inr True \<longrightarrow> m \<in> set out"
    using parts by auto
  with run show ?thesis by blast
qed

theorem C1_protected_when_team_witness:
  "extract_team_state [chat 0 ''u0'', alpha_create 1 ''u1''] = Inr alpha_state \<and>
   \<not> is_empty alpha_state \<and> str_statuses alpha_state \<and>
   is_team_message (msg_dict (alpha_create 1 ''u1'')) = Inr True \<and>
   (\<exists>out. prune_with_team_protect rt0 drop_all [chat 0 ''u0'', alpha_create 1 ''u1''] =
             Inr (out, (), alpha_state) \<and> alpha_create 1 ''u1'' \<in> set out)"
proof -
  let ?ms = "[chat 0 ''u0'', alpha_create 1 ''u1'']"
  have a: "extract_team_state ?ms = Inr alpha_state" by code_simp
  have b: "\<not> is_empty alpha_state" by (simp add: is_empty_def alpha_state_def)
  have c: "drop_all (filter (\<lambda>m. is_team_message (msg_dict m) = Inr False) ?ms) = Inr ([], ())"
    by (simp add: drop_all_def)
  have d: "str_statuses alpha_state" by (simp add: str_statuses_def alpha_state_def)
  have t: "is_team_message (msg_dict (alpha_create 1 ''u1'')) = Inr True" by code_simp
  from C1_protected_when_team[where rx = drop_all and rt = rt0, OF a b c d] t
  have "\<exists>out. prune_with_team_protect rt0 drop_all ?ms = Inr (out, (), alpha_state) \<and>
              alpha_create 1 ''u1'' \<in> set out"
    by auto
  with a b d t show ?thesis by blast
qed

section \<open>The order of the pruned log\<close>

lemma prune_sorted:
  assumes "prune_with_team_protect rt rx ms = Inr (out, res, st)" and "monotonic_output rx ms"
  shows "sorted (map line_idx out)"
proof (cases "extract_team_state ms")
  case (Inl e)
  then show ?thesis using assms(1) by (simp add: prune_with_team_protect_def)
next
  case (Inr ts)
  show ?thesis
  proof (cases "is_empty ts")
    case True
    then have "rx ms = Inr (out, res)"
      using assms(1) Inr by (auto simp: prune_with_team_protect_def split: sum.splits)
    then show ?thesis using assms(2) by (simp add: monotonic_output_def)
  next
    case False
    then obtain team non_team red where
      "inject_team_recovery rt (sort_key line_idx (red @ team)) ts = Inr out"
      using assms(1) Inr by (auto simp: prune_with_team_protect_def split: sum.splits)
    then show ?thesis by (rule inject_sorted) simp
  qed
qed

lemma precedes_sorted_le:
  "sorted (map f xs) \<Longrightarrow> precedes xs a b \<Longrightarrow> f a \<le> f b"
  by (induction xs) auto

lemma sorted_precedes:
  "sorted (map f xs) \<Longrightarrow> a \<in> set xs \<Longrightarrow> b \<in> set xs \<Longrightarrow> f a < f b \<Longrightarrow> precedes xs a b"
proof (induction xs)
  case Nil
  then show ?case by simp
next
  case (Cons x xs)
  from Cons.prems(1) have le: "\<forall>y\<in>set xs. f x \<le> f y" and s: "sorted (map f xs)" by auto
  show ?case
  proof (cases "a = x")
    case True
    then have "b \<noteq> x" using Cons.prems(4) by auto
    then have "b \<in> set xs" using Cons.prems(3) by simp
    then show ?thesis using True by simp
  next
    case False
    then have a: "a \<in> set xs" using Cons.prems(2) by simp
    have "b \<noteq> x"
    proof
      assume "b = x"
      then have "f b \<le> f a" using le a by simp
      then show False using Cons.prems(4) by simp
    qed
    then have "b \<in> set xs" using Cons.prems(3) by simp
    then have "precedes xs a b" using Cons.IH[OF s a _ Cons.prems(4)] by simp
    then show ?thesis by simp
  qed
qed

lemma strict_precedes_less:
  fixes f :: "'a \<Rightarrow> 'b::linorder"
  shows "sorted_wrt (<) (map f xs) \<Longrightarrow> precedes xs a b \<Longrightarrow> f a < f b"
  by (induction xs) auto

lemma strict_inj:
  fixes f :: "'a \<Rightarrow> 'b::linorder"
  assumes "sorted_wrt (<) (map f xs)" and "a \<in> set xs" and "b \<in> set xs" and "f a = f b"
  shows "a = b"
proof -
  have "distinct (map f xs)" using assms(1) by (simp add: strict_sorted_iff)
  then have "inj_on f (set xs)" by (simp add: distinct_map)
  then show ?thesis using assms(2-4) by (auto dest: inj_onD)
qed

text \<open>
  Claim C3, as stated, fails: a reducer within its contract may lower the position of an entry it
  keeps, and the merge sorts by position. Here the reducer keeps the last chat entry at position
  0; the protected entry at position 1, which came before it in the input, comes after it in the
  output.
\<close>

theorem C3_counterexample:
  "reducer_contract keep_last_renumbered \<and>
   sorted_wrt (<) (map line_idx [chat 0 ''u0'', alpha_create 1 ''u1'', chat 2 ''u2'']) \<and>
   prune_with_team_protect rt0 keep_last_renumbered
       [chat 0 ''u0'', alpha_create 1 ''u1'', chat 2 ''u2''] =
     Inr ([(0, snd (chat 2 ''u2'')), alpha_create 1 ''u1''] @ injected 2 (alpha_create 1 ''u1''),
          (), alpha_state) \<and>
   precedes [chat 0 ''u0'', alpha_create 1 ''u1'', chat 2 ''u2'']
            (alpha_create 1 ''u1'') (chat 2 ''u2'') \<and>
   precedes ([(0, snd (chat 2 ''u2'')), alpha_create 1 ''u1''] @ injected 2 (alpha_create 1 ''u1''))
            (0, snd (chat 2 ''u2'')) (alpha_create 1 ''u1'') \<and>
   \<not> precedes ([(0, snd (chat 2 ''u2'')), alpha_create 1 ''u1''] @ injected 2 (alpha_create 1 ''u1''))
            (alpha_create 1 ''u1'') (0, snd (chat 2 ''u2''))"
proof -
  have 1: "sorted_wrt (<) (map line_idx [chat 0 ''u0'', alpha_create 1 ''u1'', chat 2 ''u2''])"
    by code_simp
  have 2: "prune_with_team_protect rt0 keep_last_renumbered
       [chat 0 ''u0'', alpha_create 1 ''u1'', chat 2 ''u2''] =
     Inr ([(0, snd (chat 2 ''u2'')), alpha_create 1 ''u1''] @ injected 2 (alpha_create 1 ''u1''),
          (), alpha_state)"
    by code_simp
  have 3: "precedes [chat 0 ''u0'', alpha_create 1 ''u1'', chat 2 ''u2'']
            (alpha_create 1 ''u1'') (chat 2 ''u2'')"
    by code_simp
  have 4: "precedes ([(0, snd (chat 2 ''u2'')), alpha_create 1 ''u1''] @ injected 2 (alpha_create 1 ''u1''))
            (0, snd (chat 2 ''u2'')) (alpha_create 1 ''u1'')"
    by code_simp
  have 5: "\<not> precedes ([(0, snd (chat 2 ''u2'')), alpha_create 1 ''u1''] @ injected 2 (alpha_create 1 ''u1''))
            (alpha_create 1 ''u1'') (0, snd (chat 2 ''u2''))"
    by code_simp
  show ?thesis using keep_last_contract 1 2 3 4 5 by blast
qed

text \<open>
  Claim C3, amended. Whenever pruning returns and the positions of the reducer's output on the
  log are monotonic, the returned log, injected entries included, is sorted by position. If the
  positions of the input are strictly increasing, then two entries that both kept their place
  (they are entries of the input) are in the output in the order of the input, and an entry whose
  position the reducer lowered never comes after an entry that kept its place and followed it in
  the input.
\<close>

theorem C3_order:
  assumes "prune_with_team_protect rt rx ms = Inr (out, res, st)" and "monotonic_output rx ms"
  shows "sorted (map line_idx out) \<and>
         (sorted_wrt (<) (map line_idx ms) \<longrightarrow>
            (\<forall>a b. a \<in> set ms \<and> b \<in> set ms \<and> a \<noteq> b \<and> precedes out a b \<longrightarrow> precedes ms a b) \<and>
            (\<forall>x m b. x \<in> set out \<and> snd x = snd m \<and> line_idx x \<le> line_idx m \<and>
                      b \<in> set ms \<and> b \<in> set out \<and> precedes ms m b \<longrightarrow> precedes out x b))"
proof -
  have s: "sorted (map line_idx out)" using prune_sorted[OF assms] .
  {
    assume strict: "sorted_wrt (<) (map line_idx ms)"
    {
      fix a b assume ab: "a \<in> set ms" "b \<in> set ms" "a \<noteq> b" "precedes out a b"
      have "line_idx a \<le> line_idx b" using precedes_sorted_le[OF s ab(4)] .
      moreover have "line_idx a \<noteq> line_idx b" using strict_inj[OF strict ab(1,2)] ab(3) by blast
      ultimately have "line_idx a < line_idx b" by simp
      then have "precedes ms a b"
        using sorted_precedes[OF strict_sorted_imp_sorted[OF strict] ab(1,2)] by simp
    }
    moreover
    {
      fix x m b assume h: "x \<in> set out" "line_idx x \<le> line_idx m" "b \<in> set out" "precedes ms m b"
      have "line_idx m < line_idx b" using strict_precedes_less[OF strict h(4)] .
      then have "precedes out x b" using sorted_precedes[OF s h(1,3)] h(2) by simp
    }
    ultimately have "(\<forall>a b. a \<in> set ms \<and> b \<in> set ms \<and> a \<noteq> b \<and> precedes out a b \<longrightarrow> precedes ms a b) \<and>
            (\<forall>x m b. x \<in> set out \<and> snd x = snd m \<and> line_idx x \<le> line_idx m \<and>
                      b \<in> set ms \<and> b \<in> set out \<and> precedes ms m b \<longrightarrow> precedes out x b)"
      by blast
  }
  with s show ?thesis by blast
qed

theorem C3_order_witness:
  "prune_with_team_protect rt0 keep_all [chat 0 ''u0'', alpha_create 1 ''u1''] =
     Inr ([chat 0 ''u0'', alpha_create 1 ''u1''] @ injected 2 (alpha_create 1 ''u1''),
          (), alpha_state) \<and>
   monotonic_output keep_all [chat 0 ''u0'', alpha_create 1 ''u1''] \<and>
   sorted_wrt (<) (map line_idx [chat 0 ''u0'', alpha_create 1 ''u1'']) \<and>
   sorted (map line_idx ([chat 0 ''u0'', alpha_create 1 ''u1''] @ injected 2 (alpha_create 1 ''u1''))) \<and>
   precedes ([chat 0 ''u0'', alpha_create 1 ''u1''] @ injected 2 (alpha_create 1 ''u1''))
            (chat 0 ''u0'') (alpha_create 1 ''u1'') \<and>
   precedes [chat 0 ''u0'', alpha_create 1 ''u1''] (chat 0 ''u0'') (alpha_create 1 ''u1'')"
proof -
  let ?ms = "[chat 0 ''u0'', alpha_create 1 ''u1'']"
  let ?out = "?ms @ injected 2 (alpha_create 1 ''u1'')"
  have run: "prune_with_team_protect rt0 keep_all ?ms = Inr (?out, (), alpha_state)"
    by code_simp
  have mono: "monotonic_output keep_all ?ms" by code_simp
  have strict: "sorted_wrt (<) (map line_idx ?ms)" by code_simp
  have p: "precedes ?out (chat 0 ''u0'') (alpha_create 1 ''u1'')" by code_simp
  have ne: "chat 0 ''u0'' \<noteq> alpha_create 1 ''u1''" by code_simp
  note ordered = C3_order[OF run mono]
  have s: "sorted (map line_idx ?out)" using ordered by blast
  have "precedes ?ms (chat 0 ''u0'') (alpha_create 1 ''u1'')"
    using ordered strict p ne by auto
  with run mono strict s p show ?thesis by blast
qed

section \<open>The extractor, one invocation further\<close>








































section \<open>Teammate upserts\<close>























section \<open>Blocks that are not dicts\<close>

text \<open>
  Claim C10. The extractor does not return on every log: an assistant entry that the classifier
  accepts and whose content list holds a string makes the second loop call
  \<^verbatim>\<open>block.get\<close> on that string.
\<close>

theorem C10_failing_input:
  "extract_team_state [log_entry 0 ''u0'' ''assistant'' [JStr ''note'', tool_use ''TaskList'' []]] = Inl AttributeError"
  by code_simp

end
